theory Spec2Isabelle
  imports Complex_Main "HOL-Library.Word"
begin

section \<open>The ransomware guard (guard.py): data model\<close>

text \<open>
  The guard watches a folder of text files. Every change of a file is analysed against
  the file's previous profile (checksum, byte entropy, share of printable bytes, n-gram
  profile); suspicious changes are reported by \<open>alert\<close>, which suppresses repeats.

  Conventions of the embedding.
  \<^item> Python floats are modelled as \<open>real\<close>: every comparison of the source is the same
    comparison on the exact values.
  \<^item> Bytes are \<open>8 word\<close>; a \<open>bytes\<close> object is a list of them.
  \<^item> A Python \<open>dict\<close> or \<open>Counter\<close> whose keys are iterated is an association list in
    insertion order; a dict that is only looked up is a map.
  \<^item> An exception that leaves a function is the \<open>Inl\<close> branch of its result.
  \<^item> What a call reads from the outside world (file metadata, file content, the clocks)
    is an argument of the call, the record \<open>obs\<close>.
  \<^item> The \<open>[ERROR]\<close> and \<open>[DEBUG]\<close> diagnostics printed by the analyser change neither its
    result nor any state and are left out; the \<open>[ALERT]\<close> lines are modelled.
\<close>

type_synonym byte = "8 word"

type_synonym 'k counter = "('k \<times> nat) list"

text \<open>The configuration section of the source (lines 13 to 34), with its values.\<close>

record config =
  BURST_WINDOW_SEC :: nat
  BURST_THRESHOLD :: nat
  ALERT_COOLDOWN_SEC :: nat
  ASCII_MIN :: nat
  ASCII_MAX :: nat
  PRINTABLE_THR :: real
  ENTROPY_THR :: real
  NGRAM_N :: nat
  STEP :: nat
  JACC_THR :: real
  MAX_REASONS :: nat
  HONEYPOT_NAMES :: "string list"

definition default_config :: config where
  "default_config =
     \<lparr> BURST_WINDOW_SEC = 5, BURST_THRESHOLD = 10, ALERT_COOLDOWN_SEC = 5,
       ASCII_MIN = 32, ASCII_MAX = 127, PRINTABLE_THR = 7 / 10, ENTROPY_THR = 1 / 2,
       NGRAM_N = 3, STEP = 1, JACC_THR = 7 / 10, MAX_REASONS = 3,
       HONEYPOT_NAMES = [''honey1.txt'', ''honey2.txt'', ''honey3.txt''] \<rparr>"

text \<open>
  Library functions the source calls and this repository does not define: the BLAKE3
  digest, and Python's formatting of a float (\<open>str\<close> as used by an f-string field
  without format, and the \<open>.2f\<close> format).
\<close>

record env =
  blake3_hexdigest :: "byte list \<Rightarrow> string"
  str_float :: "real \<Rightarrow> string"
  fmt_2f :: "real \<Rightarrow> string"

text \<open>A file profile: the dict built at lines 191 to 198 (and 132 to 139).\<close>

record profile =
  p_checksum :: string
  p_entropy :: real
  p_mtime :: real
  p_timestamp :: string
  p_ngram :: "byte list counter"
  p_size :: nat

text \<open>
  A baseline entry \<open>{"history": [...], "latest": {...}}\<close>. The empty dict that
  \<open>setdefault\<close> puts under \<open>"latest"\<close> is \<open>None\<close>.
\<close>

record entry =
  history :: "profile list"
  latest :: "profile option"

text \<open>
  The baseline dict maps a path string to an entry, and the key \<open>"honeypots"\<close> to a list
  of file names: its values are of two shapes.
\<close>

datatype bval = Entry entry | Names "string list"

type_synonym baseline = "string \<rightharpoonup> bval"

text \<open>
  A \<open>pathlib.Path\<close>, as the attributes the program reads: \<open>str(path)\<close>, \<open>path.name\<close>
  and \<open>path.suffix\<close>.
\<close>

record path =
  pstr :: string
  pname :: string
  psuffix :: string

text \<open>
  What one call observes: the result of \<open>path.stat().st_mtime\<close> (line 116), of
  \<open>path.read_bytes()\<close> (line 125), of \<open>path.stat().st_size\<close> (line 138), each either
  the message of the exception raised or the value; \<open>datetime.now().isoformat()\<close>;
  and \<open>time.time()\<close> as read by the burst check and by \<open>alert\<close>.
\<close>

record obs =
  stat_mtime :: "string + real"
  read_bytes :: "string + byte list"
  stat_size :: "string + nat"
  iso_now :: string
  clock_burst :: real
  clock_alert :: real

datatype exn = OSError string | AttributeError | TypeError

text \<open>
  The state of a run: the guard's baseline and event window, the module's
  \<open>last_alerts\<close> table, and the alert lines written to standard output.
\<close>

record state =
  baseline :: baseline
  events_window :: "real list"
  last_alerts :: "string \<rightharpoonup> (string \<times> real)"
  stdout :: "string list"

section \<open>Helper functions\<close>

text \<open>\<open>blake3sum\<close> (line 41).\<close>

definition blake3sum :: "env \<Rightarrow> byte list \<Rightarrow> string" where
  "blake3sum ev data = blake3_hexdigest ev data"

text \<open>
  \<open>entropy\<close> (line 48): minus the sum of \<open>p * log2 p\<close> over the counter's values. It is
  called with \<open>total > 0\<close> only.
\<close>

definition entropy :: "'k counter \<Rightarrow> nat \<Rightarrow> real" where
  "entropy cnt tot =
     - (\<Sum>c\<leftarrow>map snd cnt. (real c / real tot) * log 2 (real c / real tot))"

text \<open>\<open>c[k] += 1\<close> on a \<open>Counter\<close>.\<close>

fun counter_incr :: "'k counter \<Rightarrow> 'k \<Rightarrow> 'k counter" where
  "counter_incr [] k = [(k, 1)]"
| "counter_incr ((k', c) # kvs) k =
     (if k' = k then (k', c + 1) # kvs else (k', c) # counter_incr kvs k)"

definition Counter :: "'k list \<Rightarrow> 'k counter" where
  "Counter ks = fold (\<lambda>k c. counter_incr c k) ks []"

text \<open>
  \<open>ngram_profile\<close> (line 57): the windows \<open>data[i : i + n]\<close> for \<open>i\<close> in
  \<open>range(0, len(data) - n + 1, step)\<close>, counted. The only caller passes the defaults
  \<open>NGRAM_N = 3\<close> and \<open>STEP = 1\<close>; the model is for \<open>step > 0\<close>.
\<close>

definition ngram_profile :: "byte list \<Rightarrow> nat \<Rightarrow> nat \<Rightarrow> byte list counter" where
  "ngram_profile data n step =
     Counter (map (\<lambda>i. take n (drop i data))
       (filter (\<lambda>i. i mod step = 0) [0 ..< length data + 1 - n]))"

text \<open>\<open>jaccard\<close> (line 78), on the key sets.\<close>

definition jaccard :: "'k counter \<Rightarrow> 'k counter \<Rightarrow> real" where
  "jaccard a b =
     (let sa = set (map fst a); sb = set (map fst b)
      in real (card (sa \<inter> sb)) / real (if card (sa \<union> sb) = 0 then 1 else card (sa \<union> sb)))"

text \<open>\<open>sep.join(xs)\<close>.\<close>

fun join :: "string \<Rightarrow> string list \<Rightarrow> string" where
  "join sep [] = []"
| "join sep [x] = x"
| "join sep (x # y # ys) = x @ sep @ join sep (y # ys)"

text \<open>\<open>str(n)\<close> of a non-negative integer.\<close>

fun str_nat :: "nat \<Rightarrow> string" where
  "str_nat n =
     (if n < 10 then [char_of (48 + n)] else str_nat (n div 10) @ [char_of (48 + n mod 10)])"

text \<open>\<open>s.lower()\<close>, on the letters A to Z.\<close>

definition lower_char :: "char \<Rightarrow> char" where
  "lower_char c =
     (let n = (of_char c :: nat) in if 65 \<le> n \<and> n \<le> 90 then char_of (n + 32) else c)"

definition lower :: "string \<Rightarrow> string" where
  "lower s = map lower_char s"

definition startswith :: "string \<Rightarrow> string \<Rightarrow> bool" where
  "startswith s pre = (take (length pre) s = pre)"

definition endswith :: "string \<Rightarrow> string \<Rightarrow> bool" where
  "endswith s suf = (drop (length s - length suf) s = suf)"

section \<open>alert (line 99)\<close>

definition alert :: "config \<Rightarrow> real \<Rightarrow> path \<Rightarrow> string list \<Rightarrow> state \<Rightarrow> state" where
  "alert cfg now p reasons s =
     (let key = pstr p;
          reason_str = join '', '' reasons;
          (last_reason, last_time) =
             (case last_alerts s key of
                None \<Rightarrow> (None, 0)
              | Some (r, t) \<Rightarrow> (Some r, t))
      in if last_reason = Some reason_str \<and> now - last_time < real (ALERT_COOLDOWN_SEC cfg)
         then s
         else s\<lparr> last_alerts := (last_alerts s)(key \<mapsto> (reason_str, now)),
                 stdout := stdout s @ [''[ALERT] '' @ pstr p @ '' -> '' @ reason_str] \<rparr>)"

section \<open>The burst check (line 215)\<close>

text \<open>The \<open>while\<close> loop of line 231: pop from the left while the oldest entry is too old.\<close>

fun popleft_while :: "real \<Rightarrow> real \<Rightarrow> real list \<Rightarrow> real list" where
  "popleft_while win now [] = []"
| "popleft_while win now (t # ts) =
     (if now - t > win then popleft_while win now ts else t # ts)"

definition too_many_events :: "config \<Rightarrow> real \<Rightarrow> real list \<Rightarrow> real list \<times> bool" where
  "too_many_events cfg now window =
     (let w = popleft_while (real (BURST_WINDOW_SEC cfg)) now (window @ [now])
      in (w, BURST_THRESHOLD cfg \<le> length w))"

section \<open>The analyser (line 115)\<close>

text \<open>
  The byte loop of lines 141 to 150: count every byte, count the printable ones, and
  leave at the first byte that is not below 127 (\<open>None\<close>).
\<close>

fun scan_bytes :: "config \<Rightarrow> byte list \<Rightarrow> nat \<Rightarrow> byte counter \<Rightarrow> (nat \<times> byte counter) option" where
  "scan_bytes cfg [] printable_cnt freq = Some (printable_cnt, freq)"
| "scan_bytes cfg (b # bs) printable_cnt freq =
     (let freq' = counter_incr freq b
      in if b < 127
         then scan_bytes cfg bs
                (if ASCII_MIN cfg \<le> unat b \<and> unat b \<le> ASCII_MAX cfg
                 then printable_cnt + 1 else printable_cnt) freq'
         else None)"

text \<open>
  \<open>(prev or {}).get("latest", {})\<close> (line 117), for \<open>prev\<close> as \<open>_process\<close> and \<open>main\<close>
  pass it, the value \<open>baseline.get(key)\<close>: no value, an entry, or the list stored under
  \<open>"honeypots"\<close>, which has no \<open>get\<close> unless it is empty (and then falsy).
\<close>

fun get_latest :: "bval option \<Rightarrow> exn + profile option" where
  "get_latest None = Inr None"
| "get_latest (Some (Entry e)) = Inr (latest e)"
| "get_latest (Some (Names [])) = Inr None"
| "get_latest (Some (Names (n # ns))) = Inl AttributeError"

definition low_printable_msg :: "config \<Rightarrow> env \<Rightarrow> real \<Rightarrow> string" where
  "low_printable_msg cfg ev printable_ratio =
     ''low_printable (ratio='' @ fmt_2f ev printable_ratio @ '' < ''
       @ str_float ev (PRINTABLE_THR cfg) @ '')''"

definition ngram_msg :: "config \<Rightarrow> env \<Rightarrow> real \<Rightarrow> string" where
  "ngram_msg cfg ev sim =
     ''N-Gram anomaly'' @ [CHR 0x0A] @ ''Details: Similarity dropped to '' @ fmt_2f ev sim
       @ '' (threshold = '' @ str_float ev (JACC_THR cfg) @ '')''"

text \<open>Lines 166 to 171: the reason appended inside the checksum block, if any.\<close>

definition checksum_reason :: "bool \<Rightarrow> bool \<Rightarrow> string list" where
  "checksum_reason entropy_up low =
     (if entropy_up \<and> low then [''entropy+printable+checksum'']
      else if entropy_up then [''checksum+entropy'']
      else if low then [''checksum+low_printable'']
      else [])"

text \<open>
  Lines 152 to 200, after the byte loop. \<open>prev_latest\<close> is \<open>None\<close> for the empty dict,
  where every \<open>get\<close> gives its default.
\<close>

definition analyze_stats ::
  "config \<Rightarrow> env \<Rightarrow> string \<Rightarrow> real \<Rightarrow> profile option \<Rightarrow> byte list \<Rightarrow> nat \<Rightarrow> byte counter
     \<Rightarrow> string list \<times> profile option" where
  "analyze_stats cfg ev timestamp mtime prev_latest raw printable_cnt freq =
     (let tot = length raw;
          printable_ratio = real printable_cnt / real tot;
          ent = entropy freq tot;
          checksum = blake3sum ev raw;
          low = (printable_ratio < PRINTABLE_THR cfg);
          reasons0 = (if low then [low_printable_msg cfg ev printable_ratio] else []);
          checksum_changed =
            (case prev_latest of
               None \<Rightarrow> False
             | Some pl \<Rightarrow> p_checksum pl \<noteq> [] \<and> p_checksum pl \<noteq> checksum);
          entropy_up =
            (ent - (case prev_latest of None \<Rightarrow> 0 | Some pl \<Rightarrow> p_entropy pl) > ENTROPY_THR cfg);
          in_block = (reasons0 = [] \<and> checksum_changed);
          reasons1 = (if in_block then reasons0 @ checksum_reason entropy_up low else reasons0)
      in if in_block \<and> MAX_REASONS cfg \<le> length reasons1 then (reasons1, None)
         else
           let prev_ngram = (case prev_latest of None \<Rightarrow> [] | Some pl \<Rightarrow> p_ngram pl);
               prev_size = (case prev_latest of None \<Rightarrow> tot | Some pl \<Rightarrow> p_size pl);
               shrink_ratio = (if prev_size \<noteq> 0 then real tot / real prev_size else 1);
               compare = (reasons1 = [] \<and> checksum_changed \<and> prev_ngram \<noteq> []);
               new_ng1 = (if compare then Some (ngram_profile raw (NGRAM_N cfg) (STEP cfg)) else None);
               sim = jaccard prev_ngram (ngram_profile raw (NGRAM_N cfg) (STEP cfg));
               reasons2 = (if compare \<and> sim < JACC_THR cfg
                           then reasons1 @ [ngram_msg cfg ev sim] else reasons1);
               new_ng2 = (if prev_ngram = [] \<or> shrink_ratio < 1 / 2
                          then Some (ngram_profile raw (NGRAM_N cfg) (STEP cfg)) else new_ng1)
           in (reasons2,
               Some \<lparr> p_checksum = checksum, p_entropy = ent, p_mtime = mtime,
                      p_timestamp = timestamp,
                      p_ngram = (case new_ng2 of None \<Rightarrow> [] | Some ng \<Rightarrow> ng),
                      p_size = tot \<rparr>))"

definition analyze_file_single_pass ::
  "config \<Rightarrow> env \<Rightarrow> obs \<Rightarrow> path \<Rightarrow> bval option \<Rightarrow> exn + (string list \<times> profile option)" where
  "analyze_file_single_pass cfg ev ob p prev =
     (case stat_mtime ob of
        Inl e \<Rightarrow> Inl (OSError e)
      | Inr mtime \<Rightarrow>
          (case get_latest prev of
             Inl x \<Rightarrow> Inl x
           | Inr prev_latest \<Rightarrow>
               if map_option p_mtime prev_latest = Some mtime then Inr ([], None)
               else if lower (psuffix p) \<noteq> ''.txt'' then Inr ([''extension''], None)
               else
                 (case read_bytes ob of
                    Inl e \<Rightarrow> Inr ([''read_error:'' @ e], None)
                  | Inr raw \<Rightarrow>
                      if length raw = 0
                      then
                        (case stat_size ob of
                           Inl e \<Rightarrow> Inl (OSError e)
                         | Inr sz \<Rightarrow>
                             Inr ([], Some \<lparr> p_checksum = blake3sum ev [], p_entropy = 0,
                                             p_mtime = mtime, p_timestamp = iso_now ob,
                                             p_ngram = [], p_size = sz \<rparr>))
                      else
                        (case scan_bytes cfg raw 0 [] of
                           None \<Rightarrow> Inr ([''non_ascii''], None)
                         | Some (printable_cnt, freq) \<Rightarrow>
                             Inr (analyze_stats cfg ev (iso_now ob) mtime prev_latest raw
                                    printable_cnt freq)))))"

section \<open>The guard (line 205) and the initial scan (line 301)\<close>

text \<open>
  \<open>name in self.baseline.get("honeypots", [])\<close> (line 237). Membership in a dict is
  membership in its keys.
\<close>

fun is_honeypot :: "baseline \<Rightarrow> string \<Rightarrow> bool" where
  "is_honeypot b name =
     (case b ''honeypots'' of
        None \<Rightarrow> False
      | Some (Names ns) \<Rightarrow> name \<in> set ns
      | Some (Entry e) \<Rightarrow> name \<in> {''history'', ''latest''})"

text \<open>
  Lines 255 to 257 (and 310 to 312): \<open>setdefault\<close>, append to the history, replace
  \<open>latest\<close>. Indexing the list under \<open>"honeypots"\<close> with a string raises.
\<close>

fun update_baseline :: "baseline \<Rightarrow> string \<Rightarrow> profile \<Rightarrow> exn + baseline" where
  "update_baseline b key pr =
     (case b key of
        None \<Rightarrow> Inr (b(key \<mapsto> Entry \<lparr> history = [pr], latest = Some pr \<rparr>))
      | Some (Entry e) \<Rightarrow> Inr (b(key \<mapsto> Entry \<lparr> history = history e @ [pr], latest = Some pr \<rparr>))
      | Some (Names ns) \<Rightarrow> Inl TypeError)"

definition star_path :: path where
  "star_path = \<lparr> pstr = [CHR 0xE2, CHR 0x98, CHR 0x85], pname = [CHR 0xE2, CHR 0x98, CHR 0x85],
                 psuffix = [] \<rparr>"

definition burst_msg :: "config \<Rightarrow> string" where
  "burst_msg cfg =
     ''burst>'' @ str_nat (BURST_THRESHOLD cfg) @ '' in '' @ str_nat (BURST_WINDOW_SEC cfg) @ ''s''"

text \<open>
  \<open>Guard._process\<close> (line 235). The result is the exception that left the call, if any,
  and the state the call leaves behind.
\<close>

definition process :: "config \<Rightarrow> env \<Rightarrow> obs \<Rightarrow> path \<Rightarrow> state \<Rightarrow> exn option \<times> state" where
  "process cfg ev ob p s =
     (if is_honeypot (baseline s) (pname p)
      then (None, alert cfg (clock_alert ob) p [''honeypot_access''] s)
      else if endswith (pname p) ''~'' \<or> startswith (pname p) ''.'' then (None, s)
      else
        let (w, burst) = too_many_events cfg (clock_burst ob) (events_window s);
            s1 = s\<lparr> events_window := w \<rparr>
        in if burst then (None, alert cfg (clock_alert ob) star_path [burst_msg cfg] s1)
           else
             (case analyze_file_single_pass cfg ev ob p (baseline s1 (pstr p)) of
                Inl x \<Rightarrow> (Some x, s1)
              | Inr (reasons, profile) \<Rightarrow>
                  let s2 = (if reasons \<noteq> [] then alert cfg (clock_alert ob) p reasons s1 else s1)
                  in (case profile of
                        None \<Rightarrow> (None, s2)
                      | Some pr \<Rightarrow>
                          (case update_baseline (baseline s2) (pstr p) pr of
                             Inl x \<Rightarrow> (Some x, s2)
                           | Inr b \<Rightarrow> (None, s2\<lparr> baseline := b \<rparr>)))))"

text \<open>The body of the loop of the initial scan (lines 307 to 314).\<close>

definition scan_step :: "config \<Rightarrow> env \<Rightarrow> obs \<Rightarrow> path \<Rightarrow> state \<Rightarrow> exn option \<times> state" where
  "scan_step cfg ev ob file s =
     (case analyze_file_single_pass cfg ev ob file (baseline s (pstr file)) of
        Inl x \<Rightarrow> (Some x, s)
      | Inr (reasons, profile) \<Rightarrow>
          (case (case profile of
                   None \<Rightarrow> Inr (baseline s)
                 | Some pr \<Rightarrow> update_baseline (baseline s) (pstr file) pr) of
             Inl x \<Rightarrow> (Some x, s)
           | Inr b \<Rightarrow>
               let s1 = s\<lparr> baseline := b \<rparr>
               in (None, if reasons \<noteq> [] then alert cfg (clock_alert ob) file reasons s1 else s1)))"

text \<open>The loop itself, over the files \<open>rglob\<close> yields; an exception ends it.\<close>

fun initial_scan :: "config \<Rightarrow> env \<Rightarrow> (path \<times> obs) list \<Rightarrow> state \<Rightarrow> exn option \<times> state" where
  "initial_scan cfg ev [] s = (None, s)"
| "initial_scan cfg ev ((file, ob) # rest) s =
     (case scan_step cfg ev ob file s of
        (Some x, s') \<Rightarrow> (Some x, s')
      | (None, s') \<Rightarrow> initial_scan cfg ev rest s')"

section \<open>Definitions used to state the properties\<close>

text \<open>
  Successive calls of the burst check at the times \<open>ts\<close>, from the window \<open>window\<close>: the
  window they leave behind.
\<close>

fun admit_all :: "config \<Rightarrow> real list \<Rightarrow> real list \<Rightarrow> real list" where
  "admit_all cfg [] window = window"
| "admit_all cfg (t # ts) window = admit_all cfg ts (fst (too_many_events cfg t window))"

text \<open>The line \<open>alert\<close> prints (line 109).\<close>

definition alert_line :: "path \<Rightarrow> string list \<Rightarrow> string" where
  "alert_line p reasons = ''[ALERT] '' @ pstr p @ '' -> '' @ join '', '' reasons"


text \<open>The history stored for a key (empty when the key has no entry).\<close>

definition history_of :: "baseline \<Rightarrow> string \<Rightarrow> profile list" where
  "history_of b key = (case b key of Some (Entry e) \<Rightarrow> history e | _ \<Rightarrow> [])"

text \<open>The invariant of an entry: \<open>latest\<close> is the last element of a non-empty history.\<close>

definition entry_ok :: "entry \<Rightarrow> bool" where
  "entry_ok e = (history e \<noteq> [] \<and> latest e = Some (last (history e)))"

definition baseline_inv :: "baseline \<Rightarrow> bool" where
  "baseline_inv b = (\<forall>key e. b key = Some (Entry e) \<longrightarrow> entry_ok e)"

text \<open>The baseline with one profile appended to the history of a key.\<close>

definition appended :: "baseline \<Rightarrow> string \<Rightarrow> profile \<Rightarrow> baseline" where
  "appended b key pr = b(key \<mapsto> Entry \<lparr> history = history_of b key @ [pr], latest = Some pr \<rparr>)"

definition step_ok :: "baseline \<Rightarrow> string \<Rightarrow> baseline \<Rightarrow> bool" where
  "step_ok b key b' = (b' = b \<or> (\<exists>pr. b' = appended b key pr))"

subsection \<open>Concrete inputs\<close>

text \<open>
  Stand-ins for the library functions: every digest is \<open>C2\<close>, and floats print as the
  two strings the examples need.
\<close>

definition stub_env :: env where
  "stub_env = \<lparr> blake3_hexdigest = (\<lambda>data. ''C2''), str_float = (\<lambda>x. ''0.7''),
                fmt_2f = (\<lambda>x. ''0.30'') \<rparr>"

definition old_profile :: profile where
  "old_profile = \<lparr> p_checksum = ''C1'', p_entropy = 1, p_mtime = 100,
                   p_timestamp = ''2025-01-01T00:00:00'', p_ngram = [], p_size = 10 \<rparr>"

definition old_entry :: entry where
  "old_entry = \<lparr> history = [old_profile], latest = Some old_profile \<rparr>"

definition txt_path :: path where
  "txt_path = \<lparr> pstr = ''/watch/a.txt'', pname = ''a.txt'', psuffix = ''.txt'' \<rparr>"

definition dot_path :: path where
  "dot_path = \<lparr> pstr = ''/watch/.decoy.txt'', pname = ''.decoy.txt'', psuffix = ''.txt'' \<rparr>"

definition observe :: "real \<Rightarrow> string + byte list \<Rightarrow> obs" where
  "observe m rd =
     \<lparr> stat_mtime = Inr m, read_bytes = rd,
       stat_size = Inr (case rd of Inl e \<Rightarrow> 0 | Inr raw \<Rightarrow> length raw),
       iso_now = ''2025-01-02T00:00:00'', clock_burst = 1000, clock_alert = 1000 \<rparr>"

definition start_state :: state where
  "start_state =
     \<lparr> baseline = [''/watch/a.txt'' \<mapsto> Entry old_entry, ''honeypots'' \<mapsto> Names [''.decoy.txt'']],
       events_window = [], last_alerts = Map.empty, stdout = [] \<rparr>"

text \<open>Ten bytes, all below 127: three printable ones and seven control characters.\<close>

definition mixed_bytes :: "byte list" where
  "mixed_bytes = [97, 98, 99, 1, 2, 3, 4, 5, 6, 7]"





section \<open>The burst check\<close>

lemma popleft_while_dropWhile:
  "popleft_while win now ts = dropWhile (\<lambda>t. now - t > win) ts"
  by (induction ts) simp_all

lemma popleft_while_sorted:
  "sorted ts \<Longrightarrow> popleft_while win now ts = filter (\<lambda>t. now - t \<le> win) ts"
proof (induction ts)
  case Nil
  then show ?case by simp
next
  case (Cons t ts)
  show ?case
  proof (cases "now - t > win")
    case True
    with Cons show ?thesis by simp
  next
    case False
    have "\<forall>u\<in>set ts. now - u \<le> win"
    proof
      fix u assume "u \<in> set ts"
      with Cons.prems have "t \<le> u" by simp
      with False show "now - u \<le> win" by linarith
    qed
    then have "filter (\<lambda>t. now - t \<le> win) ts = ts" by (simp add: filter_id_conv)
    with False show ?thesis by simp
  qed
qed

lemma admit_all_snoc:
  "admit_all cfg (ts @ [t]) window = fst (too_many_events cfg t (admit_all cfg ts window))"
  by (induction ts arbitrary: window) simp_all

lemma admit_all_sorted:
  "sorted ts \<Longrightarrow> ts \<noteq> [] \<Longrightarrow>
     admit_all cfg ts [] = filter (\<lambda>t. last ts - t \<le> real (BURST_WINDOW_SEC cfg)) ts"
proof (induction ts rule: rev_induct)
  case Nil
  then show ?case by simp
next
  case (snoc t ts)
  let ?win = "real (BURST_WINDOW_SEC cfg)"
  show ?case
  proof (cases "ts = []")
    case True
    then show ?thesis by (simp add: too_many_events_def)
  next
    case False
    from snoc.prems have sts: "sorted ts" and le: "\<forall>u\<in>set ts. u \<le> t"
      by (simp_all add: sorted_append)
    from False le have lt: "last ts \<le> t" by simp
    have w: "admit_all cfg ts [] = filter (\<lambda>u. last ts - u \<le> ?win) ts"
      using snoc.IH sts False by simp
    have "sorted (filter (\<lambda>u. last ts - u \<le> ?win) ts @ [t])"
      using sts le by (auto simp: sorted_append intro: sorted_wrt_filter)
    then have "popleft_while ?win t (filter (\<lambda>u. last ts - u \<le> ?win) ts @ [t])
        = filter (\<lambda>u. t - u \<le> ?win) (filter (\<lambda>u. last ts - u \<le> ?win) ts @ [t])"
      by (rule popleft_while_sorted)
    also have "\<dots> = filter (\<lambda>u. t - u \<le> ?win) ts @ [t]"
      using lt by (auto intro: filter_cong)
    finally show ?thesis
      by (simp add: admit_all_snoc too_many_events_def w)
  qed
qed

lemma too_many_events_sorted:
  assumes "sorted (ts @ [now])"
  shows "too_many_events cfg now (admit_all cfg ts []) =
           (filter (\<lambda>t. now - t \<le> real (BURST_WINDOW_SEC cfg)) (ts @ [now]),
            BURST_THRESHOLD cfg \<le> length (filter (\<lambda>t. now - t \<le> real (BURST_WINDOW_SEC cfg)) (ts @ [now])))"
proof -
  have "admit_all cfg (ts @ [now]) [] =
          filter (\<lambda>t. now - t \<le> real (BURST_WINDOW_SEC cfg)) (ts @ [now])"
    using admit_all_sorted [OF assms, of cfg] by simp
  then have "fst (too_many_events cfg now (admit_all cfg ts [])) =
          filter (\<lambda>t. now - t \<le> real (BURST_WINDOW_SEC cfg)) (ts @ [now])"
    by (simp add: admit_all_snoc)
  then show ?thesis
    by (simp add: too_many_events_def Let_def)
qed


lemma sorted_hd_le: "sorted (xs :: real list) \<Longrightarrow> x \<in> set xs \<Longrightarrow> hd xs \<le> x"
  by (cases xs) auto

lemma sorted_le_last: "sorted (xs :: real list) \<Longrightarrow> x \<in> set xs \<Longrightarrow> x \<le> last xs"
  by (induction xs) auto

text \<open>
  C7. Calls of the burst check at non-decreasing times \<open>ts\<close> and then \<open>now\<close>, from the empty
  window: the call at \<open>now\<close> appends \<open>now\<close>, leaves exactly the times within 5 seconds of
  \<open>now\<close> in the window, and returns true iff the window then holds at least 10 entries.
  So the 10th of 10 calls within 5 seconds returns true, and a call 6 seconds or more
  after 9 others returns false.
\<close>

theorem C7_burst_gate:
  assumes "sorted (ts @ [now])"
  shows "(let (w, r) = too_many_events default_config now (admit_all default_config ts [])
          in w = filter (\<lambda>t. now - t \<le> 5) (ts @ [now])
           \<and> last w = now
           \<and> (r \<longleftrightarrow> 10 \<le> length w)
           \<and> (length ts = 9 \<and> now - hd ts \<le> 5 \<longrightarrow> r)
           \<and> (length ts = 9 \<and> 6 \<le> now - last ts \<longrightarrow> \<not> r))"
proof -
  let ?w = "filter (\<lambda>t. now - t \<le> 5) (ts @ [now])"
  have res: "too_many_events default_config now (admit_all default_config ts []) =
               (?w, 10 \<le> length ?w)"
    using too_many_events_sorted [OF assms, of default_config]
    by (simp add: default_config_def)
  from assms have sts: "sorted ts"
    by (simp add: sorted_append)
  have lst: "last ?w = now"
    by simp
  have within: "10 \<le> length ?w" if "length ts = 9" "now - hd ts \<le> 5"
  proof -
    have "now - t \<le> 5" if "t \<in> set ts" for t
      using sorted_hd_le [OF sts that] \<open>now - hd ts \<le> 5\<close> by linarith
    then have "filter (\<lambda>t. now - t \<le> 5) ts = ts"
      by (simp add: filter_id_conv)
    with that(1) show ?thesis by simp
  qed
  have gap: "\<not> 10 \<le> length ?w" if "length ts = 9" "6 \<le> now - last ts"
  proof -
    have "\<not> now - t \<le> 5" if "t \<in> set ts" for t
      using sorted_le_last [OF sts that] \<open>6 \<le> now - last ts\<close> by linarith
    then have "filter (\<lambda>t. now - t \<le> 5) ts = []"
      by (simp add: filter_empty_conv)
    then show ?thesis by simp
  qed
  show ?thesis
    unfolding res Let_def prod.case
    using lst within gap by blast
qed

theorem C7_burst_gate_witness:
  "sorted ([0, 1/2, 1, 3/2, 2, 5/2, 3, 7/2, 4] @ [9/2 :: real])
   \<and> snd (too_many_events default_config (9/2)
            (admit_all default_config [0, 1/2, 1, 3/2, 2, 5/2, 3, 7/2, 4] []))
   \<and> sorted ([0, 1/2, 1, 3/2, 2, 5/2, 3, 7/2, 4] @ [10 :: real])
   \<and> \<not> snd (too_many_events default_config 10
            (admit_all default_config [0, 1/2, 1, 3/2, 2, 5/2, 3, 7/2, 4] []))"
proof -
  let ?ts = "[0, 1/2, 1, 3/2, 2, 5/2, 3, 7/2, 4] :: real list"
  have a: "sorted (?ts @ [9/2])" by simp
  have b: "sorted (?ts @ [10])" by simp
  obtain w r where wr:
    "too_many_events default_config (9/2) (admit_all default_config ?ts []) = (w, r)"
    by (cases "too_many_events default_config (9/2) (admit_all default_config ?ts [])")
  obtain w' r' where wr':
    "too_many_events default_config 10 (admit_all default_config ?ts []) = (w', r')"
    by (cases "too_many_events default_config 10 (admit_all default_config ?ts [])")
  have c: "length ?ts = 9 \<and> 9/2 - hd ?ts \<le> 5 \<longrightarrow> r"
    using C7_burst_gate [OF a] unfolding wr Let_def prod.case by (elim conjE)
  have c': "length ?ts = 9 \<and> 6 \<le> 10 - last ?ts \<longrightarrow> \<not> r'"
    using C7_burst_gate [OF b] unfolding wr' Let_def prod.case by (elim conjE)
  have "length ?ts = 9 \<and> 9/2 - hd ?ts \<le> 5" by simp
  with c have r ..
  moreover have "length ?ts = 9 \<and> 6 \<le> 10 - last ?ts" by simp
  with c' have "\<not> r'" ..
  ultimately show ?thesis
    unfolding wr wr' using a b by simp
qed

section \<open>Alert suppression\<close>

text \<open>
  C8. Two alerts for one path with the same reasons within the 5 second cooldown print one
  line: the second changes nothing at all. A third one, 5 seconds or more after the first,
  prints again and stores its time. The record is per path: the same alert for another
  path is printed and leaves the first path's record alone. (The first alert is assumed not
  to be a repeat itself.)
\<close>

theorem C8_alert_dedup:
  assumes fresh: "\<forall>t0. last_alerts s (pstr p) = Some (join '', '' rs, t0) \<longrightarrow> 5 \<le> t1 - t0"
    and within: "t2 - t1 < 5"
    and after: "5 \<le> t3 - t1"
    and other: "pstr q \<noteq> pstr p" "last_alerts s (pstr q) = None"
  shows "(let s1 = alert default_config t1 p rs s;
              s2 = alert default_config t2 p rs s1;
              s3 = alert default_config t3 p rs s2;
              sq = alert default_config t2 q rs s1
          in stdout s1 = stdout s @ [alert_line p rs]
           \<and> s2 = s1
           \<and> stdout s3 = stdout s @ [alert_line p rs, alert_line p rs]
           \<and> last_alerts s3 (pstr p) = Some (join '', '' rs, t3)
           \<and> stdout sq = stdout s1 @ [alert_line q rs]
           \<and> last_alerts sq (pstr p) = last_alerts s1 (pstr p))"
  using assms
  by (auto simp: alert_def alert_line_def Let_def default_config_def split: option.splits)

theorem C8_alert_dedup_witness:
  "last_alerts start_state (pstr txt_path) = None
   \<and> alert_line txt_path [''non_ascii''] = ''[ALERT] /watch/a.txt -> non_ascii''
   \<and> (let s1 = alert default_config 0 txt_path [''non_ascii''] start_state;
            s2 = alert default_config 3 txt_path [''non_ascii''] s1;
            s3 = alert default_config 5 txt_path [''non_ascii''] s2;
            sq = alert default_config 3 dot_path [''non_ascii''] s1
        in stdout s1 = stdout start_state @ [alert_line txt_path [''non_ascii'']]
         \<and> s2 = s1
         \<and> stdout s3 = stdout start_state
              @ [alert_line txt_path [''non_ascii''], alert_line txt_path [''non_ascii'']]
         \<and> last_alerts s3 (pstr txt_path) = Some (join '', '' [''non_ascii''], 5)
         \<and> stdout sq = stdout s1 @ [alert_line dot_path [''non_ascii'']]
         \<and> last_alerts sq (pstr txt_path) = last_alerts s1 (pstr txt_path))"
proof -
  have 0: "last_alerts start_state (pstr txt_path) = None"
    by (simp add: start_state_def)
  have 1: "\<forall>t0. last_alerts start_state (pstr txt_path) = Some (join '', '' [''non_ascii''], t0)
             \<longrightarrow> 5 \<le> 0 - t0"
    by (simp add: 0)
  have 2: "(3::real) - 0 < 5" by simp
  have 3: "(5::real) \<le> 5 - 0" by simp
  have 4: "pstr dot_path \<noteq> pstr txt_path" by (simp add: dot_path_def txt_path_def)
  have 5: "last_alerts start_state (pstr dot_path) = None" by (simp add: start_state_def)
  have 6: "alert_line txt_path [''non_ascii''] = ''[ALERT] /watch/a.txt -> non_ascii''"
    by (simp add: alert_line_def txt_path_def)
  from 0 6 C8_alert_dedup [OF 1 2 3 4 5] show ?thesis
    by (intro conjI)
qed

section \<open>The analyser\<close>

lemma alert_baseline: "baseline (alert cfg now p rs s) = baseline s"
  by (simp add: alert_def Let_def split: option.splits prod.splits)

lemma alert_events_window: "events_window (alert cfg now p rs s) = events_window s"
  by (simp add: alert_def Let_def split: option.splits prod.splits)

lemma scan_bytes_None_iff:
  "scan_bytes cfg raw c f = None \<longleftrightarrow> (\<exists>b\<in>set raw. 127 \<le> b)"
  by (induction raw arbitrary: c f) (auto simp: Let_def not_less)

lemma checksum_reason_length: "length (checksum_reason eu low) \<le> 1"
  by (simp add: checksum_reason_def)

lemma analyze_stats_length:
  "length (fst (analyze_stats cfg ev ts m pl raw c f)) \<le> 1"
  by (simp add: analyze_stats_def Let_def checksum_reason_def)


lemma analyze_stats_low:
  assumes "real c / real (length raw) < PRINTABLE_THR cfg"
  shows "fst (analyze_stats cfg ev ts m pl raw c f) =
           [low_printable_msg cfg ev (real c / real (length raw))]"
  using assms by (simp add: analyze_stats_def Let_def)

lemma analyze_stats_low_profile:
  assumes "real c / real (length raw) < PRINTABLE_THR cfg"
  shows "snd (analyze_stats cfg ev ts m pl raw c f) \<noteq> None"
  using assms by (simp add: analyze_stats_def Let_def)

text \<open>Evaluations on the concrete inputs.\<close>

lemma lower_txt: "lower ''.txt'' = ''.txt''"
  by (simp add: lower_def lower_char_def)

lemma log2_10: "3 < log 2 (10::real)"
proof -
  have "log 2 8 < log 2 (10::real)" by simp
  moreover have "log 2 8 = (3::real)" using log_pow_cancel [of 2 3] by simp
  ultimately show ?thesis by simp
qed

lemma mixed_scan:
  "scan_bytes default_config mixed_bytes 0 [] =
     Some (3, [(97, 1), (98, 1), (99, 1), (1, 1), (2, 1), (3, 1), (4, 1), (5, 1), (6, 1), (7, 1)])"
  by (simp add: mixed_bytes_def default_config_def)

lemma mixed_entropy:
  "entropy [(97 :: byte, 1), (98, 1), (99, 1), (1, 1), (2, 1), (3, 1), (4, 1), (5, 1), (6, 1), (7, 1)] 10
     = log 2 10"
  by (simp add: entropy_def log_divide)

lemma mixed_low: "real 3 / real (length mixed_bytes) < PRINTABLE_THR default_config"
  by (simp add: mixed_bytes_def default_config_def)

lemma stub_msg: "low_printable_msg default_config stub_env x = ''low_printable (ratio=0.30 < 0.7)''"
  by (simp add: low_printable_msg_def stub_env_def)

lemma mixed_nonempty: "length mixed_bytes \<noteq> 0"
  by (simp add: mixed_bytes_def)

lemma mixed_result:
  "\<exists>pr. analyze_file_single_pass default_config stub_env
        (observe 200 (Inr mixed_bytes)) txt_path (Some (Entry old_entry))
       = Inr ([''low_printable (ratio=0.30 < 0.7)''], Some pr)"
proof -
  let ?st = "analyze_stats default_config stub_env ''2025-01-02T00:00:00'' 200 (Some old_profile) mixed_bytes 3
      [(97, 1), (98, 1), (99, 1), (1, 1), (2, 1), (3, 1), (4, 1), (5, 1), (6, 1), (7, 1)]"
  have "analyze_file_single_pass default_config stub_env
        (observe 200 (Inr mixed_bytes)) txt_path (Some (Entry old_entry)) = Inr ?st"
    using mixed_nonempty
    by (simp add: analyze_file_single_pass_def mixed_scan lower_txt observe_def txt_path_def
        old_entry_def old_profile_def)
  moreover have "fst ?st = [''low_printable (ratio=0.30 < 0.7)'']"
    using analyze_stats_low [OF mixed_low] by (simp add: stub_msg)
  moreover obtain pr where "snd ?st = Some pr"
    using analyze_stats_low_profile [OF mixed_low] by blast
  ultimately show ?thesis
    by (metis prod.collapse)
qed

text \<open>
  C2. Whenever the analyser returns, for any configuration, path and previous value, the
  list of reasons has at most one element: the low-printable reason, the reason of the
  checksum block and the n-gram reason exclude each other.
\<close>

theorem C2_at_most_one_reason:
  assumes "analyze_file_single_pass cfg ev ob p prev = Inr (reasons, profile)"
  shows "length reasons \<le> 1"
proof -
  have "length (fst (analyze_stats cfg ev ts m pl raw c f)) \<le> 1" for ts m pl raw c f
    by (rule analyze_stats_length)
  then have "\<And>ts m pl raw c f. analyze_stats cfg ev ts m pl raw c f = (reasons, profile)
               \<Longrightarrow> length reasons \<le> 1"
    by (metis fst_conv)
  with assms show ?thesis
    by (auto simp: analyze_file_single_pass_def split: sum.splits if_splits option.splits)
qed

theorem C2_at_most_one_reason_witness:
  "\<exists>pr. analyze_file_single_pass default_config stub_env
          (observe 200 (Inr mixed_bytes)) txt_path (Some (Entry old_entry))
        = Inr ([''low_printable (ratio=0.30 < 0.7)''], Some pr)
      \<and> length [''low_printable (ratio=0.30 < 0.7)''] \<le> 1"
proof -
  from mixed_result obtain pr where
    a: "analyze_file_single_pass default_config stub_env
          (observe 200 (Inr mixed_bytes)) txt_path (Some (Entry old_entry))
        = Inr ([''low_printable (ratio=0.30 < 0.7)''], Some pr)" ..
  from a C2_at_most_one_reason [OF a] show ?thesis by blast
qed

text \<open>
  C6. A file with the monitored extension and a changed modification time whose content
  holds a byte of value 127 or more gives exactly \<open>["non_ascii"]\<close> and no profile, whatever
  the share of printable bytes.
\<close>

theorem C6_non_ascii:
  assumes "stat_mtime ob = Inr m"
    and "get_latest prev = Inr pl"
    and "map_option p_mtime pl \<noteq> Some m"
    and "lower (psuffix p) = ''.txt''"
    and "read_bytes ob = Inr raw"
    and "\<exists>b\<in>set raw. 127 \<le> b"
  shows "analyze_file_single_pass cfg ev ob p prev = Inr ([''non_ascii''], None)"
proof -
  from assms(6) have "raw \<noteq> []" by auto
  moreover from assms(6) have "scan_bytes cfg raw 0 [] = None"
    by (simp add: scan_bytes_None_iff)
  ultimately show ?thesis
    using assms(1-5) by (simp add: analyze_file_single_pass_def)
qed

text \<open>An instance: 99 printable bytes and one byte of value 200.\<close>

theorem C6_non_ascii_witness:
  "length (replicate 99 (65 :: byte) @ [200]) = 100
   \<and> length (filter (\<lambda>b. 32 \<le> b \<and> b < 127) (replicate 99 (65 :: byte) @ [200])) = 99
   \<and> analyze_file_single_pass default_config stub_env
        (observe 200 (Inr (replicate 99 65 @ [200]))) txt_path (Some (Entry old_entry))
       = Inr ([''non_ascii''], None)"
proof -
  have 1: "stat_mtime (observe 200 (Inr (replicate 99 65 @ [200]))) = Inr 200"
    by (simp add: observe_def)
  have 2: "get_latest (Some (Entry old_entry)) = Inr (Some old_profile)"
    by (simp add: old_entry_def)
  have 3: "map_option p_mtime (Some old_profile) \<noteq> Some 200"
    by (simp add: old_profile_def)
  have 4: "lower (psuffix txt_path) = ''.txt''"
    by (simp add: txt_path_def lower_txt)
  have 5: "read_bytes (observe 200 (Inr (replicate 99 65 @ [200]))) = Inr (replicate 99 65 @ [200])"
    by (simp add: observe_def)
  have 6: "\<exists>b\<in>set (replicate 99 (65 :: byte) @ [200]). 127 \<le> b"
    by simp
  have 7: "length (filter (\<lambda>b. 32 \<le> b \<and> b < 127) (replicate 99 (65 :: byte) @ [200])) = 99"
    by simp
  from 7 C6_non_ascii [OF 1 2 3 4 5 6] show ?thesis by simp
qed

text \<open>
  C9. When the modification time equals the one of the previous profile, the analyser
  returns no reasons and no profile; the state is left as it was, so a second call with the
  same modification time returns the same.
\<close>

theorem C9_unchanged_mtime:
  assumes "stat_mtime ob = Inr m" "stat_mtime ob' = Inr m"
    and "baseline s (pstr p) = Some (Entry e)"
    and "latest e = Some pl"
    and "p_mtime pl = m"
  shows "analyze_file_single_pass cfg ev ob p (baseline s (pstr p)) = Inr ([], None)
       \<and> scan_step cfg ev ob p s = (None, s)
       \<and> analyze_file_single_pass cfg ev ob' p (baseline (snd (scan_step cfg ev ob p s)) (pstr p))
           = Inr ([], None)"
  using assms by (simp add: analyze_file_single_pass_def scan_step_def)

theorem C9_unchanged_mtime_witness:
  "analyze_file_single_pass default_config stub_env (observe 100 (Inr mixed_bytes)) txt_path
       (baseline start_state (pstr txt_path)) = Inr ([], None)
   \<and> scan_step default_config stub_env (observe 100 (Inr mixed_bytes)) txt_path start_state
       = (None, start_state)
   \<and> analyze_file_single_pass default_config stub_env (observe 100 (Inr [])) txt_path
       (baseline (snd (scan_step default_config stub_env (observe 100 (Inr mixed_bytes)) txt_path
          start_state)) (pstr txt_path)) = Inr ([], None)"
proof -
  have 1: "stat_mtime (observe 100 (Inr mixed_bytes)) = Inr 100"
    by (simp add: observe_def)
  have 2: "stat_mtime (observe 100 (Inr [])) = Inr 100"
    by (simp add: observe_def)
  have 3: "baseline start_state (pstr txt_path) = Some (Entry old_entry)"
    by (simp add: start_state_def txt_path_def)
  have 4: "latest old_entry = Some old_profile"
    by (simp add: old_entry_def)
  have 5: "p_mtime old_profile = 100"
    by (simp add: old_profile_def)
  show ?thesis
    by (rule C9_unchanged_mtime [OF 1 2 3 4 5])
qed

text \<open>
  C1. The previous profile has entropy 1 and checksum \<open>C1\<close>; the new content has bytes
  below 127 only, the checksum \<open>C2\<close>, three printable bytes of ten (ratio 0.3) and an
  entropy more than 0.5 above the previous one. The analyser returns the low-printable
  reason alone, and a profile: line 160 has appended that reason before line 165 asks for
  an empty list, so the branch of line 167 is never reached.
\<close>

theorem C1_low_printable_shadows_combination:
  "scan_bytes default_config mixed_bytes 0 [] =
     Some (3, [(97, 1), (98, 1), (99, 1), (1, 1), (2, 1), (3, 1), (4, 1), (5, 1), (6, 1), (7, 1)])
   \<and> real 3 / real (length mixed_bytes) = 3 / 10
   \<and> ENTROPY_THR default_config
        < entropy [(97 :: byte, 1), (98, 1), (99, 1), (1, 1), (2, 1), (3, 1), (4, 1), (5, 1), (6, 1), (7, 1)] 10
            - p_entropy old_profile
   \<and> p_checksum old_profile = ''C1'' \<and> blake3sum stub_env mixed_bytes = ''C2''
   \<and> (\<exists>pr. analyze_file_single_pass default_config stub_env
              (observe 200 (Inr mixed_bytes)) txt_path (Some (Entry old_entry))
            = Inr ([''low_printable (ratio=0.30 < 0.7)''], Some pr))"
proof -
  have 1: "real 3 / real (length mixed_bytes) = 3 / 10"
    by (simp add: mixed_bytes_def)
  have 2: "ENTROPY_THR default_config
        < entropy [(97 :: byte, 1), (98, 1), (99, 1), (1, 1), (2, 1), (3, 1), (4, 1), (5, 1), (6, 1), (7, 1)] 10
            - p_entropy old_profile"
    unfolding mixed_entropy using log2_10 by (simp add: default_config_def old_profile_def)
  have 3: "p_checksum old_profile = ''C1'' \<and> blake3sum stub_env mixed_bytes = ''C2''"
    by (simp add: old_profile_def blake3sum_def stub_env_def)
  from mixed_scan 1 2 3 mixed_result show ?thesis
    by (intro conjI) simp_all
qed

section \<open>The guard and the scan\<close>

lemma update_baseline_appended:
  "update_baseline b key pr = Inr b' \<Longrightarrow> b' = appended b key pr"
  by (auto simp: appended_def history_of_def split: option.splits bval.splits)

lemma appended_inv: "baseline_inv b \<Longrightarrow> baseline_inv (appended b key pr)"
  by (auto simp: baseline_inv_def appended_def entry_ok_def)

lemma appended_history:
  "history_of (appended b key pr) k = history_of b k @ (if k = key then [pr] else [])"
  by (simp add: appended_def history_of_def)

lemma update_baseline_step_ok:
  "update_baseline b key pr = Inr b' \<Longrightarrow> step_ok b key b'"
  by (auto simp: step_ok_def appended_def history_of_def split: option.splits bval.splits)

lemma process_step_ok: "step_ok (baseline s) (pstr p) (baseline (snd (process cfg ev ob p s)))"
proof -
  have refl: "step_ok (baseline s) (pstr p) (baseline s)"
    by (simp add: step_ok_def)
  show ?thesis
    using refl
    by (auto simp: process_def alert_baseline Let_def simp del: update_baseline.simps
        split: prod.splits sum.splits option.splits intro: update_baseline_step_ok)
qed

lemma scan_step_step_ok: "step_ok (baseline s) (pstr p) (baseline (snd (scan_step cfg ev ob p s)))"
proof -
  have refl: "step_ok (baseline s) (pstr p) (baseline s)"
    by (simp add: step_ok_def)
  show ?thesis
    using refl
    by (auto simp: scan_step_def alert_baseline Let_def simp del: update_baseline.simps
        split: prod.splits sum.splits option.splits intro: update_baseline_step_ok)
qed

lemma step_ok_inv: "step_ok b key b' \<Longrightarrow> baseline_inv b \<Longrightarrow> baseline_inv b'"
  by (auto simp: step_ok_def appended_inv)

lemma step_ok_history: "step_ok b key b' \<Longrightarrow> \<exists>ys. history_of b' k = history_of b k @ ys"
  by (auto simp: step_ok_def appended_history)

lemma initial_scan_inv:
  "baseline_inv (baseline s) \<Longrightarrow> baseline_inv (baseline (snd (initial_scan cfg ev files s)))"
proof (induction files arbitrary: s)
  case Nil
  then show ?case by simp
next
  case (Cons f files)
  obtain pth ob where f: "f = (pth, ob)" by (cases f)
  obtain r s' where st: "scan_step cfg ev ob pth s = (r, s')" by (cases "scan_step cfg ev ob pth s")
  have "step_ok (baseline s) (pstr pth) (baseline s')"
    using scan_step_step_ok [of s pth cfg ev ob] st by simp
  with Cons.prems have inv': "baseline_inv (baseline s')" by (rule step_ok_inv [rotated])
  show ?case
  proof (cases r)
    case None
    with f st Cons.IH [OF inv'] show ?thesis by simp
  next
    case (Some x)
    with f st inv' show ?thesis by simp
  qed
qed

lemma initial_scan_history:
  "\<exists>ys. history_of (baseline (snd (initial_scan cfg ev files s))) k = history_of (baseline s) k @ ys"
proof (induction files arbitrary: s)
  case Nil
  then show ?case by simp
next
  case (Cons f files)
  obtain pth ob where f: "f = (pth, ob)" by (cases f)
  obtain r s' where st: "scan_step cfg ev ob pth s = (r, s')" by (cases "scan_step cfg ev ob pth s")
  have "step_ok (baseline s) (pstr pth) (baseline s')"
    using scan_step_step_ok [of s pth cfg ev ob] st by simp
  then obtain ys where ys: "history_of (baseline s') k = history_of (baseline s) k @ ys"
    using step_ok_history by blast
  show ?case
  proof (cases r)
    case None
    from Cons.IH [of s'] obtain zs where
      "history_of (baseline (snd (initial_scan cfg ev files s'))) k = history_of (baseline s') k @ zs"
      by blast
    with None f st ys show ?thesis by simp
  next
    case (Some x)
    with f st ys show ?thesis by simp
  qed
qed

text \<open>
  C10. The live handler and the step of the initial scan either leave the baseline as it
  was or replace the entry of the handled path by one whose history is the old history
  with one profile appended and whose \<open>latest\<close> is that profile. So every entry that has
  \<open>latest\<close> equal to the last element of its history keeps that property, through the
  handler, a step of the scan and the whole scan, and the scan only extends histories.
\<close>

theorem C10_history_append_only:
  "(let b = baseline s; key = pstr p;
        b1 = baseline (snd (process cfg ev ob p s));
        b2 = baseline (snd (scan_step cfg ev ob p s));
        b3 = baseline (snd (initial_scan cfg ev files s))
    in (b1 = b \<or> (\<exists>pr. b1 = b(key \<mapsto> Entry \<lparr> history = history_of b key @ [pr], latest = Some pr \<rparr>)))
     \<and> (b2 = b \<or> (\<exists>pr. b2 = b(key \<mapsto> Entry \<lparr> history = history_of b key @ [pr], latest = Some pr \<rparr>)))
     \<and> (baseline_inv b \<longrightarrow> baseline_inv b1 \<and> baseline_inv b2 \<and> baseline_inv b3)
     \<and> (\<forall>k. \<exists>ys. history_of b3 k = history_of b k @ ys))"
proof -
  let ?b = "baseline s"
  have 1: "step_ok ?b (pstr p) (baseline (snd (process cfg ev ob p s)))"
    by (rule process_step_ok)
  have 2: "step_ok ?b (pstr p) (baseline (snd (scan_step cfg ev ob p s)))"
    by (rule scan_step_step_ok)
  have 3: "baseline_inv ?b \<longrightarrow> baseline_inv (baseline (snd (process cfg ev ob p s)))
             \<and> baseline_inv (baseline (snd (scan_step cfg ev ob p s)))
             \<and> baseline_inv (baseline (snd (initial_scan cfg ev files s)))"
    using step_ok_inv [OF 1] step_ok_inv [OF 2] initial_scan_inv [of s cfg ev files] by blast
  have 4: "\<forall>k. \<exists>ys. history_of (baseline (snd (initial_scan cfg ev files s))) k = history_of ?b k @ ys"
    using initial_scan_history [of cfg ev files s] by blast
  from 1 2 3 4 show ?thesis
    unfolding Let_def step_ok_def appended_def by blast
qed

lemma start_state_inv: "baseline_inv (baseline start_state)"
  by (simp add: baseline_inv_def start_state_def entry_ok_def old_entry_def)

theorem C10_history_append_only_witness:
  "baseline_inv (baseline start_state)
   \<and> baseline_inv (baseline (snd (process default_config stub_env (observe 200 (Inr mixed_bytes))
        txt_path start_state)))
   \<and> baseline_inv (baseline (snd (scan_step default_config stub_env (observe 200 (Inr mixed_bytes))
        txt_path start_state)))
   \<and> baseline_inv (baseline (snd (initial_scan default_config stub_env
        [(txt_path, observe 200 (Inr mixed_bytes))] start_state)))
   \<and> (\<exists>pr. history_of (baseline (snd (scan_step default_config stub_env
                (observe 200 (Inr mixed_bytes)) txt_path start_state))) ''/watch/a.txt''
            = [old_profile, pr])"
proof -
  from mixed_result obtain pr where
    a: "analyze_file_single_pass default_config stub_env
          (observe 200 (Inr mixed_bytes)) txt_path (Some (Entry old_entry))
        = Inr ([''low_printable (ratio=0.30 < 0.7)''], Some pr)" ..
  have b: "baseline start_state (pstr txt_path) = Some (Entry old_entry)"
    by (simp add: start_state_def txt_path_def)
  have "history_of (baseline (snd (scan_step default_config stub_env
                (observe 200 (Inr mixed_bytes)) txt_path start_state))) ''/watch/a.txt''
            = [old_profile, pr]"
    by (simp add: scan_step_def a b alert_baseline history_of_def)
       (simp add: txt_path_def old_entry_def)
  then show ?thesis
    using start_state_inv
      C10_history_append_only [of start_state txt_path default_config stub_env
        "observe 200 (Inr mixed_bytes)" "[(txt_path, observe 200 (Inr mixed_bytes))]"]
    unfolding Let_def by blast
qed

text \<open>
  C5. A name registered as a honeypot raises the \<open>honeypot_access\<close> alert whatever the
  name looks like, in particular when it begins with a dot; the alert prints its line
  when the path has no alert record yet. A name that is not registered and begins with a
  dot is dropped without any effect.
\<close>

theorem C5_honeypot_first:
  "(is_honeypot (baseline s) (pname p) \<longrightarrow>
      process cfg ev ob p s = (None, alert cfg (clock_alert ob) p [''honeypot_access''] s)
    \<and> (last_alerts s (pstr p) = None \<longrightarrow>
         stdout (snd (process cfg ev ob p s)) = stdout s @ [''[ALERT] '' @ pstr p @ '' -> honeypot_access'']))
   \<and> (\<not> is_honeypot (baseline s) (pname p) \<and> startswith (pname p) ''.'' \<longrightarrow>
         process cfg ev ob p s = (None, s))"
  by (auto simp: process_def alert_def Let_def)

theorem C5_honeypot_first_witness:
  "is_honeypot (baseline start_state) (pname dot_path)
   \<and> startswith (pname dot_path) ''.''
   \<and> process default_config stub_env (observe 200 (Inr mixed_bytes)) dot_path start_state
       = (None, alert default_config 1000 dot_path [''honeypot_access''] start_state)
   \<and> stdout (snd (process default_config stub_env (observe 200 (Inr mixed_bytes)) dot_path start_state))
       = [''[ALERT] /watch/.decoy.txt -> honeypot_access'']"
proof -
  have 1: "is_honeypot (baseline start_state) (pname dot_path)"
    by (simp add: start_state_def dot_path_def)
  have 2: "startswith (pname dot_path) ''.''"
    by (simp add: startswith_def dot_path_def)
  have 3: "last_alerts start_state (pstr dot_path) = None"
    by (simp add: start_state_def)
  have 4: "clock_alert (observe 200 (Inr mixed_bytes)) = 1000"
    by (simp add: observe_def)
  have 5: "stdout start_state = []" "pstr dot_path = ''/watch/.decoy.txt''"
    by (simp_all add: start_state_def dot_path_def)
  from 1 2 3 C5_honeypot_first [of start_state dot_path default_config stub_env
      "observe 200 (Inr mixed_bytes)"]
  show ?thesis
    by (auto simp: 4 5)
qed









end
